theory Spec2Isabelle
  imports Complex_Main "HOL-Library.Log_Nat"
begin

section \<open>The \<open>credits\<close> table of pay-api (\<open>pay_api/models/credit.py\<close>)\<close>

text \<open>
  The module declares one SQLAlchemy entity, \<open>Credit\<close>, two class-level queries on it
  and a marshmallow schema. The entity is embedded as a record with one field per
  declared column, in the order of the declarations. A column that is declared
  \<open>nullable=True\<close> (or leaves \<open>nullable\<close> out) holds an \<open>option\<close>; the primary key and
  the two \<open>nullable=False\<close> columns hold a plain value. The field of the column \<open>id\<close> is
  called \<open>credit_id\<close>, since \<open>id\<close> is the identity function of HOL.

  The two amount columns are declared \<open>db.Float\<close>: the table stores binary64
  floating-point numbers (PostgreSQL \<open>double precision\<close>). A stored amount is written
  here as the rational number that the stored double denotes; what is stored and what
  is added is rounded to binary64 where the database rounds it (sections on binary64
  below). NaN and the infinities are no amounts and are left out.
\<close>

type_synonym datetime = int

record Credit =
  credit_id :: int
  cfs_identifier :: "string option"
  cfs_site :: "string option"
  is_credit_memo :: "bool option"
  amount :: rat
  remaining_amount :: rat
  details :: "string option"
  created_on :: "datetime option"
  created_invoice_id :: "int option"
  account_id :: "int option"

subsection \<open>What the queries can raise\<close>

datatype error = MultipleResultsFound | IntegrityError | DataError

subsection \<open>\<open>Query.one_or_none\<close>\<close>

text \<open>
  \<open>one_or_none()\<close> returns \<open>None\<close> for an empty result, the row for a result of one row
  and raises \<open>MultipleResultsFound\<close> for a longer one.
\<close>

fun one_or_none :: "'a list \<Rightarrow> error + 'a option" where
  "one_or_none [] = Inr None"
| "one_or_none [x] = Inr (Some x)"
| "one_or_none (x # y # zs) = Inl MultipleResultsFound"

subsection \<open>\<open>Credit.find_by_cfs_identifier\<close>\<close>

text \<open>
  \<^verbatim>\<open>cls.query.filter_by(cfs_identifier=cfs_identifier)
          .filter_by(is_credit_memo=credit_memo).one_or_none()\<close>

  \<open>filter_by(col=v)\<close> keeps the rows whose column equals \<open>v\<close>; a row whose column is
  NULL is not kept (the SQL comparison is then unknown). The query is the list of rows
  of the table.
\<close>

definition filter_by_cfs_identifier :: "Credit list \<Rightarrow> string \<Rightarrow> Credit list" where
  "filter_by_cfs_identifier query v = filter (\<lambda>c. cfs_identifier c = Some v) query"

definition filter_by_is_credit_memo :: "Credit list \<Rightarrow> bool \<Rightarrow> Credit list" where
  "filter_by_is_credit_memo query v = filter (\<lambda>c. is_credit_memo c = Some v) query"

definition find_by_cfs_identifier :: "Credit list \<Rightarrow> string \<Rightarrow> bool \<Rightarrow> error + Credit option" where
  "find_by_cfs_identifier query cfs_id credit_memo =
     one_or_none (filter_by_is_credit_memo (filter_by_cfs_identifier query cfs_id) credit_memo)"

text \<open>The call that leaves \<open>credit_memo\<close> out: the parameter's default is \<open>False\<close>.\<close>

definition find_by_cfs_identifier_default :: "Credit list \<Rightarrow> string \<Rightarrow> error + Credit option" where
  "find_by_cfs_identifier_default query cfs_id = find_by_cfs_identifier query cfs_id False"

text \<open>The rows that carry a given \<open>(cfs_identifier, is_credit_memo)\<close> pair.\<close>

definition carrying :: "Credit list \<Rightarrow> string \<Rightarrow> bool \<Rightarrow> Credit list" where
  "carrying query cfs_id memo =
     filter (\<lambda>c. cfs_identifier c = Some cfs_id \<and> is_credit_memo c = Some memo) query"

subsection \<open>Binary64 numbers\<close>

text \<open>
  \<open>ilog2 x\<close> is the exponent of the binade of a positive \<open>x\<close>:
  \<open>2 powi ilog2 x \<le> x < 2 powi (ilog2 x + 1)\<close> (lemma \<open>ilog2_bounds\<close>). The difference
  of the bit lengths of numerator and denominator is that exponent or one more.
\<close>

definition ilog2 :: "rat \<Rightarrow> int" where
  "ilog2 x = (case quotient_of x of (p, q) \<Rightarrow>
       let d = bitlen p - bitlen q in if 2 powi d \<le> x then d else d - 1)"

text \<open>Rounding to the nearest integer, a tie to the even one.\<close>

definition round_half_even :: "rat \<Rightarrow> int" where
  "round_half_even y = (let f = \<lfloor>y\<rfloor>; d = y - of_int f in
       if d < 1/2 then f else if 1/2 < d then f + 1 else if even f then f else f + 1)"

text \<open>
  The exponent of the unit in the last place of the doubles around \<open>x\<close>: 53 significant
  bits, and no unit below \<open>2 powi (- 1074)\<close> (the subnormal numbers).
\<close>

definition ulp_exp :: "rat \<Rightarrow> int" where
  "ulp_exp x = max (ilog2 \<bar>x\<bar> - 52) (- 1074)"

text \<open>
  Rounding to binary64, to nearest and ties to even, before the check of the range: the
  result is a multiple of the unit in the last place.
\<close>

definition binary64_round :: "rat \<Rightarrow> rat" where
  "binary64_round x =
     (if x = 0 then 0
      else of_int (round_half_even (x / 2 powi ulp_exp x)) * 2 powi ulp_exp x)"

text \<open>
  The finite doubles: the multiples of the unit in the last place of their binade,
  below \<open>2 ^ 1024\<close>.
\<close>

definition is_binary64 :: "rat \<Rightarrow> bool" where
  "is_binary64 x \<longleftrightarrow>
     of_int \<lfloor>x / 2 powi ulp_exp x\<rfloor> = x / 2 powi ulp_exp x \<and> \<bar>x\<bar> < 2 ^ 1024"

subsection \<open>\<open>Credit.find_remaining_by_account_id\<close>\<close>






text \<open>
  \<open>Decimal(str(x))\<close> of a double \<open>x\<close>. \<open>str\<close> prints the shortest decimal numeral that
  reads back as \<open>x\<close> (the one nearest to \<open>x\<close> if there are several of that length, the
  one with the even last digit if two are equally near) and \<open>Decimal\<close> takes that
  numeral exactly; the result is written here as the rational number it denotes.

  \<open>declen n\<close> is the number of decimal digits of a positive integer and \<open>ilog10 y\<close>
  the decimal exponent of a positive \<open>y\<close> (the difference of the numbers of digits of
  numerator and denominator, or one less). \<open>digits_candidate y j\<close> looks at
  the two multiples of \<open>10 powi j\<close> around \<open>y\<close> and returns the one \<open>str\<close> would print if
  one of them rounds to \<open>y\<close>. \<open>shortest y j n\<close> tries the units \<open>10 powi j\<close>,
  \<open>10 powi (j - 1)\<close>, ..., \<open>n\<close> of them, that is 1, 2, ..., 17 significant digits;
  17 digits always suffice for a double, and the last equation (the 17-digit numeral
  nearest to \<open>y\<close>) only makes the function total.
\<close>

function declen :: "int \<Rightarrow> int" where
  "declen n = (if n \<le> 0 then 0 else declen (n div 10) + 1)"
  by pat_completeness auto
termination
  by (relation "measure nat") auto

definition ilog10 :: "rat \<Rightarrow> int" where
  "ilog10 x = (case quotient_of x of (p, q) \<Rightarrow>
       let d = declen p - declen q in if 10 powi d \<le> x then d else d - 1)"

definition digits_candidate :: "rat \<Rightarrow> int \<Rightarrow> rat option" where
  "digits_candidate y j =
     (let u = 10 powi j; t = \<lfloor>y / u\<rfloor>; lo = of_int t * u; hi = lo + u;
          oklo = (binary64_round lo = y); okhi = (binary64_round hi = y)
      in if oklo \<and> okhi
         then Some (if y - lo < hi - y then lo else if hi - y < y - lo then hi
                    else if even t then lo else hi)
         else if oklo then Some lo else if okhi then Some hi else None)"

fun shortest :: "rat \<Rightarrow> int \<Rightarrow> nat \<Rightarrow> rat" where
  "shortest y j 0 = of_int (round_half_even (y / 10 powi (j + 1))) * 10 powi (j + 1)"
| "shortest y j (Suc n) =
     (case digits_candidate y j of Some c \<Rightarrow> c | None \<Rightarrow> shortest y (j - 1) n)"

definition Decimal_str :: "rat \<Rightarrow> rat" where
  "Decimal_str x =
     (if x = 0 then 0
      else if 0 < x then shortest x (ilog10 x) 17
      else - shortest (- x) (ilog10 (- x)) 17)"




subsection \<open>Creating a row\<close>

text \<open>
  The module has no function that creates a credit: a caller builds
  \<open>Credit(amount=..., remaining_amount=..., ...)\<close> with the keyword constructor of the
  declarative base, which stores the attributes it is given and leaves the others
  \<open>None\<close>, and hands the instance to the session. \<open>Credit_instance\<close> is that instance:
  every attribute is optional, and an amount is the number the caller gives.
\<close>

record Credit_instance =
  new_id :: "int option"
  new_cfs_identifier :: "string option"
  new_cfs_site :: "string option"
  new_is_credit_memo :: "bool option"
  new_amount :: "rat option"
  new_remaining_amount :: "rat option"
  new_details :: "string option"
  new_created_on :: "datetime option"
  new_created_invoice_id :: "int option"
  new_account_id :: "int option"

text \<open>
  The store: the \<open>credits\<close> table, and the keys of the three tables its foreign keys
  refer to (\<open>payment_accounts.id\<close>, \<open>invoices.id\<close>, \<open>cfs_accounts.cfs_site\<close>).
\<close>

record store =
  credits :: "Credit list"
  payment_accounts :: "int list"
  invoices :: "int list"
  cfs_accounts :: "string list"

text \<open>
  What the database does with a value on its way into a column; a value it cannot take
  is a \<open>DataError\<close>.
  \<^item> \<open>db.Integer\<close> is a 32-bit integer.
  \<^item> \<open>db.String(n)\<close> takes a string of at most \<open>n\<close> characters as it is; of a longer
    string it drops the characters after the first \<open>n\<close> if they are all spaces, and
    refuses the string otherwise.
  \<^item> \<open>db.Float\<close> rounds the number to binary64; a number that rounds out of the range
    of the finite doubles, or that is not zero and rounds to zero, is refused.
  \<open>nullable\<close> lets a \<open>None\<close> through as NULL.
\<close>

definition int4 :: "int \<Rightarrow> error + int" where
  "int4 i = (if - (2 ^ 31) \<le> i \<and> i < 2 ^ 31 then Inr i else Inl DataError)"

definition varchar :: "nat \<Rightarrow> string \<Rightarrow> error + string" where
  "varchar n s =
     (if length s \<le> n then Inr s
      else if list_all (\<lambda>c. c = CHR '' '') (drop n s) then Inr (take n s)
      else Inl DataError)"

definition float8in :: "rat \<Rightarrow> error + rat" where
  "float8in x =
     (let v = binary64_round x
      in if 2 ^ 1024 \<le> \<bar>v\<bar> \<or> (v = 0 \<and> x \<noteq> 0) then Inl DataError else Inr v)"

definition nullable :: "('a \<Rightarrow> error + 'b) \<Rightarrow> 'a option \<Rightarrow> error + 'b option" where
  "nullable f v =
     (case v of None \<Rightarrow> Inr None
      | Some x \<Rightarrow> (case f x of Inl e \<Rightarrow> Inl e | Inr y \<Rightarrow> Inr (Some y)))"

text \<open>An error ends the statement; otherwise the next step goes on with the value.\<close>

definition and_then :: "error + 'a \<Rightarrow> ('a \<Rightarrow> error + 'b) \<Rightarrow> error + 'b" where
  "and_then m f = (case m of Inl e \<Rightarrow> Inl e | Inr x \<Rightarrow> f x)"

text \<open>A nullable foreign key is NULL or a key of the table it refers to.\<close>

definition refers :: "'a option \<Rightarrow> 'a list \<Rightarrow> bool" where
  "refers v keys = (case v of None \<Rightarrow> True | Some k \<Rightarrow> k \<in> set keys)"

text \<open>
  The INSERT that the column declarations determine. \<open>now\<close> is what
  \<open>datetime.now(tz=timezone.utc)\<close> returns when the statement runs and \<open>nextval\<close> the
  value the key's sequence hands out. First every value is brought into its column:
  \<^item> \<open>id\<close> (\<open>db.Integer, primary_key=True, autoincrement=True\<close>): the given key, or
    \<open>nextval\<close>;
  \<^item> \<open>cfs_identifier\<close>, \<open>cfs_site\<close> (\<open>String(50)\<close>), \<open>details\<close> (\<open>String(200)\<close>);
  \<^item> \<open>amount\<close>, \<open>remaining_amount\<close> (\<open>db.Float\<close>);
  \<^item> \<open>created_invoice_id\<close>, \<open>account_id\<close> (\<open>db.Integer\<close>);
  \<^item> \<open>is_credit_memo\<close> (\<open>default=False\<close>) and \<open>created_on\<close>
    (\<open>default=lambda: datetime.now(tz=timezone.utc)\<close>): an attribute that is \<open>None\<close>
    takes the column's default, any other value is stored as it is.
  Then the constraints of the table are checked, each an \<open>IntegrityError\<close>:
  \<^item> \<open>amount\<close>, \<open>remaining_amount\<close> (\<open>nullable=False\<close>) are not NULL;
  \<^item> the key is not yet in the table;
  \<^item> \<open>cfs_site\<close>, \<open>created_invoice_id\<close>, \<open>account_id\<close> (\<open>ForeignKey\<close>) are NULL or a key
    of the table referred to.
  No declaration relates \<open>amount\<close> to \<open>remaining_amount\<close> or restricts the sign of either.
  On success the new store and the stored row are returned; on an error nothing is
  stored.
\<close>

definition insert_credit :: "store \<Rightarrow> datetime \<Rightarrow> int \<Rightarrow> Credit_instance \<Rightarrow> error + (store \<times> Credit)" where
  "insert_credit s now nextval obj =
     and_then (int4 (case new_id obj of None \<Rightarrow> nextval | Some i \<Rightarrow> i)) (\<lambda>key.
     and_then (nullable (varchar 50) (new_cfs_identifier obj)) (\<lambda>ident.
     and_then (nullable (varchar 50) (new_cfs_site obj)) (\<lambda>site.
     and_then (nullable float8in (new_amount obj)) (\<lambda>amt.
     and_then (nullable float8in (new_remaining_amount obj)) (\<lambda>remaining.
     and_then (nullable (varchar 200) (new_details obj)) (\<lambda>note.
     and_then (nullable int4 (new_created_invoice_id obj)) (\<lambda>invoice.
     and_then (nullable int4 (new_account_id obj)) (\<lambda>acct.
       case (amt, remaining) of
         (Some a, Some r) \<Rightarrow>
           (let row = \<lparr> credit_id = key,
                        cfs_identifier = ident,
                        cfs_site = site,
                        is_credit_memo = (case new_is_credit_memo obj of None \<Rightarrow> Some False | Some b \<Rightarrow> Some b),
                        amount = a,
                        remaining_amount = r,
                        details = note,
                        created_on = (case new_created_on obj of None \<Rightarrow> Some now | Some t \<Rightarrow> Some t),
                        created_invoice_id = invoice,
                        account_id = acct \<rparr>
            in if key \<in> set (map credit_id (credits s)) then Inl IntegrityError
               else if \<not> (refers site (cfs_accounts s)
                           \<and> refers invoice (invoices s)
                           \<and> refers acct (payment_accounts s))
               then Inl IntegrityError
               else Inr (s\<lparr>credits := credits s @ [row]\<rparr>, row))
       | _ \<Rightarrow> Inl IntegrityError))))))))"

subsection \<open>The operations of the module, as steps on the store\<close>

text \<open>
  A creation adds a row when the INSERT succeeds and leaves the store as it was when
  it fails; the two queries are SELECT statements and leave the store as it was.
\<close>

datatype operation =
    Create Credit_instance datetime int
  | Find_by_cfs_identifier string bool
  | Find_remaining_by_account_id int

fun exec :: "store \<Rightarrow> operation \<Rightarrow> store" where
  "exec s (Create obj now nextval) =
     (case insert_credit s now nextval obj of Inl e \<Rightarrow> s | Inr (s', row) \<Rightarrow> s')"
| "exec s (Find_by_cfs_identifier cfs_id credit_memo) = s"
| "exec s (Find_remaining_by_account_id acct) = s"

text \<open>The invariant of the data model, on a row and on every row of the table.\<close>

definition credit_invariant :: "Credit \<Rightarrow> bool" where
  "credit_invariant c \<longleftrightarrow> 0 \<le> remaining_amount c \<and> remaining_amount c \<le> amount c"

definition store_invariant :: "store \<Rightarrow> bool" where
  "store_invariant s = list_all credit_invariant (credits s)"

text \<open>An operation whose amounts, if it creates a row, satisfy the invariant themselves.\<close>

fun within_invariant :: "operation \<Rightarrow> bool" where
  "within_invariant (Create obj now nextval) =
     (case (new_amount obj, new_remaining_amount obj) of
        (Some a, Some r) \<Rightarrow> 0 \<le> r \<and> r \<le> a
      | _ \<Rightarrow> True)"
| "within_invariant (Find_by_cfs_identifier cfs_id credit_memo) = True"
| "within_invariant (Find_remaining_by_account_id acct) = True"

subsection \<open>The mapper's allow-list and \<open>CreditSchema\<close>\<close>

text \<open>
  What the class says of each column that matters to the mapping and to the schema:
  its name and the column a \<open>ForeignKey\<close> points to, if it has one.
\<close>

record column =
  col_name :: string
  col_foreign_key :: "string option"

definition Credit_columns :: "column list" where
  "Credit_columns =
    [\<lparr> col_name = ''id'', col_foreign_key = None \<rparr>,
     \<lparr> col_name = ''cfs_identifier'', col_foreign_key = None \<rparr>,
     \<lparr> col_name = ''cfs_site'', col_foreign_key = Some ''cfs_accounts.cfs_site'' \<rparr>,
     \<lparr> col_name = ''is_credit_memo'', col_foreign_key = None \<rparr>,
     \<lparr> col_name = ''amount'', col_foreign_key = None \<rparr>,
     \<lparr> col_name = ''remaining_amount'', col_foreign_key = None \<rparr>,
     \<lparr> col_name = ''details'', col_foreign_key = None \<rparr>,
     \<lparr> col_name = ''created_on'', col_foreign_key = None \<rparr>,
     \<lparr> col_name = ''created_invoice_id'', col_foreign_key = Some ''invoices.id'' \<rparr>,
     \<lparr> col_name = ''account_id'', col_foreign_key = Some ''payment_accounts.id'' \<rparr>]"

text \<open>\<open>__mapper_args__["include_properties"]\<close>, as the class lists it.\<close>

definition include_properties :: "string list" where
  "include_properties =
    [''id'', ''account_id'', ''amount'', ''cfs_identifier'', ''cfs_site'', ''created_on'',
     ''details'', ''is_credit_memo'', ''remaining_amount'', ''created_invoice_id'']"

text \<open>
  The mapper maps the columns of the table whose names are in \<open>include_properties\<close>
  and no other column.
\<close>

definition mapped_properties :: "column list \<Rightarrow> column list" where
  "mapped_properties table_columns = filter (\<lambda>c. col_name c \<in> set include_properties) table_columns"

text \<open>
  \<open>CreditSchema\<close> is an \<open>SQLAlchemyAutoSchema\<close> whose \<open>Meta\<close> sets \<open>model = Credit\<close> and
  \<open>load_instance = True\<close> and nothing else. An auto-schema generates one field for each
  mapped column property of its model; it leaves out a property whose column has a
  foreign key unless \<open>Meta.include_fk\<close> is set, and \<open>include_fk\<close> is \<open>False\<close> when \<open>Meta\<close>
  does not give it.
\<close>

definition auto_schema_fields :: "bool \<Rightarrow> column list \<Rightarrow> string list" where
  "auto_schema_fields include_fk props =
     map col_name (filter (\<lambda>c. include_fk \<or> col_foreign_key c = None) props)"

definition CreditSchema_fields :: "column list \<Rightarrow> string list" where
  "CreditSchema_fields table_columns = auto_schema_fields False (mapped_properties table_columns)"

subsection \<open>Applying a credit\<close>

datatype apply_error = InsufficientCreditError

text \<open>
  Modelled from the spec: the module has no operation that applies a credit to an
  invoice. The specification's contract for it is: \<open>apply(amount_to_apply, invoice_id)\<close>
  decrements \<open>remaining_amount\<close> by \<open>amount_to_apply\<close>; it fails with
  \<open>InsufficientCreditError\<close> if \<open>amount_to_apply > remaining_amount\<close>, and then leaves the
  record unchanged. The function returns the record after the call and the outcome.
\<close>

definition Credit_apply :: "Credit \<Rightarrow> rat \<Rightarrow> int \<Rightarrow> Credit \<times> (apply_error + unit)" where
  "Credit_apply c amount_to_apply invoice_id =
     (if amount_to_apply > remaining_amount c then (c, Inl InsufficientCreditError)
      else (c\<lparr>remaining_amount := remaining_amount c - amount_to_apply\<rparr>, Inr ()))"

subsection \<open>Sample data\<close>

definition sample_credit :: "int \<Rightarrow> string \<Rightarrow> bool \<Rightarrow> rat \<Rightarrow> rat \<Rightarrow> int \<Rightarrow> Credit" where
  "sample_credit i cfs_id memo a r acct =
     \<lparr> credit_id = i, cfs_identifier = Some cfs_id, cfs_site = None, is_credit_memo = Some memo,
       amount = a, remaining_amount = r, details = None, created_on = Some 0,
       created_invoice_id = None, account_id = Some acct \<rparr>"

definition sample_instance :: "rat option \<Rightarrow> rat option \<Rightarrow> datetime option \<Rightarrow> Credit_instance" where
  "sample_instance a r t =
     \<lparr> new_id = None, new_cfs_identifier = None, new_cfs_site = None, new_is_credit_memo = None,
       new_amount = a, new_remaining_amount = r, new_details = None, new_created_on = t,
       new_created_invoice_id = None, new_account_id = None \<rparr>"

definition empty_store :: store where
  "empty_store = \<lparr> credits = [], payment_accounts = [], invoices = [], cfs_accounts = [] \<rparr>"


section \<open>Lemmas on the lookup\<close>

lemma filters_carrying:
  "filter_by_is_credit_memo (filter_by_cfs_identifier query cfs_id) memo = carrying query cfs_id memo"
  by (simp add: filter_by_is_credit_memo_def filter_by_cfs_identifier_def carrying_def conj_commute)

lemma find_by_cfs_identifier_carrying:
  "find_by_cfs_identifier query cfs_id memo = one_or_none (carrying query cfs_id memo)"
  by (simp add: find_by_cfs_identifier_def filters_carrying)

lemma one_or_none_many: "2 \<le> length xs \<Longrightarrow> one_or_none xs = Inl MultipleResultsFound"
  by (cases xs rule: one_or_none.cases) simp_all

lemma one_or_none_Some: "one_or_none xs = Inr (Some x) \<Longrightarrow> xs = [x]"
  by (cases xs rule: one_or_none.cases) simp_all

lemma carrying_member:
  "c \<in> set (carrying query cfs_id memo) \<longleftrightarrow>
     c \<in> set query \<and> cfs_identifier c = Some cfs_id \<and> is_credit_memo c = Some memo"
  by (auto simp: carrying_def)

text \<open>
  C9: in every state of the table in which two or more rows carry the same
  \<open>(cfs_identifier, is_credit_memo)\<close> pair, \<open>find_by_cfs_identifier\<close> for that pair raises
  \<open>MultipleResultsFound\<close>; it returns neither one of the rows nor \<open>None\<close>.
\<close>

theorem find_by_cfs_identifier_duplicates_raise:
  assumes "2 \<le> length (carrying query cfs_id memo)"
  shows "find_by_cfs_identifier query cfs_id memo = Inl MultipleResultsFound"
  using assms by (simp add: find_by_cfs_identifier_carrying one_or_none_many)

theorem find_by_cfs_identifier_duplicates_raise_witness:
  "find_by_cfs_identifier
     [sample_credit 1 ''CM-1'' True 30 30 5, sample_credit 2 ''CM-1'' True 10 10 5] ''CM-1'' True
   = Inl MultipleResultsFound"
  using find_by_cfs_identifier_duplicates_raise [of
     "[sample_credit 1 ''CM-1'' True 30 30 5, sample_credit 2 ''CM-1'' True 10 10 5]" "''CM-1''" True]
  by (simp add: carrying_def sample_credit_def)

text \<open>
  C3, as amended: in every state of the table in which at most one row carries the
  pair, \<open>find_by_cfs_identifier\<close> raises nothing; it returns \<open>None\<close> exactly when no row
  carries the pair and otherwise the one row that does.
\<close>

theorem find_by_cfs_identifier_at_most_one:
  assumes "length (carrying query cfs_id memo) \<le> 1"
  shows "\<exists>r. find_by_cfs_identifier query cfs_id memo = Inr r
           \<and> (case r of None \<Rightarrow> carrying query cfs_id memo = []
                      | Some c \<Rightarrow> carrying query cfs_id memo = [c])"
proof (cases "carrying query cfs_id memo")
  case Nil
  then show ?thesis by (simp add: find_by_cfs_identifier_carrying)
next
  case (Cons c cs)
  with assms have "cs = []" by simp
  with Cons show ?thesis by (simp add: find_by_cfs_identifier_carrying)
qed

theorem find_by_cfs_identifier_at_most_one_witness:
  "find_by_cfs_identifier
     [sample_credit 1 ''CM-1'' True 30 30 5, sample_credit 2 ''OB-2'' False 10 10 5] ''CM-1'' True
     = Inr (Some (sample_credit 1 ''CM-1'' True 30 30 5))
   \<and> find_by_cfs_identifier
     [sample_credit 1 ''CM-1'' True 30 30 5, sample_credit 2 ''OB-2'' False 10 10 5] ''CM-1'' False
     = Inr None"
  using find_by_cfs_identifier_at_most_one [of
     "[sample_credit 1 ''CM-1'' True 30 30 5, sample_credit 2 ''OB-2'' False 10 10 5]" "''CM-1''" True]
    find_by_cfs_identifier_at_most_one [of
     "[sample_credit 1 ''CM-1'' True 30 30 5, sample_credit 2 ''OB-2'' False 10 10 5]" "''CM-1''" False]
  by (auto simp: carrying_def sample_credit_def split: option.splits)

text \<open>
  C3 as it is stated fails: with two rows that carry the pair a match exists, and the
  call returns no record and no absent result; it raises.
\<close>

theorem find_by_cfs_identifier_any_state_counterexample:
  "carrying [sample_credit 1 ''CM-1'' True 30 30 5, sample_credit 2 ''CM-1'' True 10 10 5] ''CM-1'' True
     = [sample_credit 1 ''CM-1'' True 30 30 5, sample_credit 2 ''CM-1'' True 10 10 5]
   \<and> find_by_cfs_identifier
       [sample_credit 1 ''CM-1'' True 30 30 5, sample_credit 2 ''CM-1'' True 10 10 5] ''CM-1'' True
     = Inl MultipleResultsFound"
  by (simp add: find_by_cfs_identifier_def filter_by_cfs_identifier_def filter_by_is_credit_memo_def
      carrying_def sample_credit_def)

lemma carrying_without_memos:
  "carrying (filter (\<lambda>c. is_credit_memo c \<noteq> Some True) query) cfs_id False
     = carrying query cfs_id False"
  unfolding carrying_def filter_filter
  by (rule filter_cong) auto

text \<open>
  C10: a call of \<open>find_by_cfs_identifier\<close> that leaves \<open>credit_memo\<close> out looks for
  \<open>is_credit_memo = False\<close>: a record it returns is a row of the table with the given
  identifier that is not a credit memo, and the call does on every table what it does
  on the table without its credit memos, so a credit memo with the same identifier
  is never returned and never changes the result.
\<close>

theorem find_by_cfs_identifier_default_not_memo:
  "(find_by_cfs_identifier_default query cfs_id = Inr (Some c) \<longrightarrow>
      c \<in> set query \<and> cfs_identifier c = Some cfs_id \<and> is_credit_memo c = Some False)
   \<and> find_by_cfs_identifier_default query cfs_id
       = find_by_cfs_identifier_default (filter (\<lambda>c. is_credit_memo c \<noteq> Some True) query) cfs_id"
proof -
  have "c \<in> set query \<and> cfs_identifier c = Some cfs_id \<and> is_credit_memo c = Some False"
    if "find_by_cfs_identifier_default query cfs_id = Inr (Some c)"
  proof -
    from that have "carrying query cfs_id False = [c]"
      by (simp add: find_by_cfs_identifier_default_def find_by_cfs_identifier_carrying one_or_none_Some)
    then have "c \<in> set (carrying query cfs_id False)" by simp
    then show ?thesis by (simp add: carrying_member)
  qed
  moreover have "find_by_cfs_identifier_default query cfs_id
       = find_by_cfs_identifier_default (filter (\<lambda>c. is_credit_memo c \<noteq> Some True) query) cfs_id"
    by (simp add: find_by_cfs_identifier_default_def find_by_cfs_identifier_carrying
        carrying_without_memos)
  ultimately show ?thesis by blast
qed

theorem find_by_cfs_identifier_default_not_memo_witness:
  "find_by_cfs_identifier_default
     [sample_credit 1 ''X-9'' True 30 30 5, sample_credit 2 ''X-9'' False 10 10 5] ''X-9''
     = Inr (Some (sample_credit 2 ''X-9'' False 10 10 5))
   \<and> is_credit_memo (sample_credit 2 ''X-9'' False 10 10 5) = Some False
   \<and> find_by_cfs_identifier_default [sample_credit 1 ''X-9'' True 30 30 5] ''X-9'' = Inr None"
proof -
  have r: "find_by_cfs_identifier_default
     [sample_credit 1 ''X-9'' True 30 30 5, sample_credit 2 ''X-9'' False 10 10 5] ''X-9''
     = Inr (Some (sample_credit 2 ''X-9'' False 10 10 5))"
    by (simp add: find_by_cfs_identifier_default_def find_by_cfs_identifier_def
        filter_by_cfs_identifier_def filter_by_is_credit_memo_def sample_credit_def)
  have e: "find_by_cfs_identifier_default [] ''X-9'' = Inr None"
    by (simp add: find_by_cfs_identifier_default_def find_by_cfs_identifier_def
        filter_by_cfs_identifier_def filter_by_is_credit_memo_def)
  from find_by_cfs_identifier_default_not_memo
         [of "[sample_credit 1 ''X-9'' True 30 30 5, sample_credit 2 ''X-9'' False 10 10 5]"
             "''X-9''" "sample_credit 2 ''X-9'' False 10 10 5"]
       find_by_cfs_identifier_default_not_memo
         [of "[sample_credit 1 ''X-9'' True 30 30 5]" "''X-9''" "sample_credit 1 ''X-9'' True 30 30 5"]
       r e
  show ?thesis by (simp add: sample_credit_def)
qed

section \<open>Rounding to binary64\<close>

lemma bitlen_pos: "0 < p \<Longrightarrow> 1 \<le> bitlen p"
  using bitlen_nonneg [of p] bitlen_eq_zero_iff [of p] by linarith

lemma of_int_bitlen_bounds:
  assumes "0 < p"
  shows "2 powi (bitlen p - 1) \<le> (of_int p :: rat)" "(of_int p :: rat) < 2 powi bitlen p"
proof -
  from bitlen_pos [OF assms] have b: "0 \<le> bitlen p - 1" "0 \<le> bitlen p" by simp_all
  from bitlen_bounds [OF assms]
  have "2 ^ nat (bitlen p - 1) \<le> p" "p < 2 ^ nat (bitlen p)" by simp_all
  then have "(of_int (2 ^ nat (bitlen p - 1)) :: rat) \<le> of_int p"
    "(of_int p :: rat) < of_int (2 ^ nat (bitlen p))"
    by (simp_all only: of_int_le_iff of_int_less_iff)
  then show "2 powi (bitlen p - 1) \<le> (of_int p :: rat)" "(of_int p :: rat) < 2 powi bitlen p"
    using b by (simp_all add: power_int_nonneg_exp)
qed

lemma ilog2_bounds:
  assumes "0 < x"
  shows "2 powi ilog2 x \<le> x" and "x < 2 powi (ilog2 x + 1)"
proof -
  obtain p q where pq: "quotient_of x = (p, q)" by (cases "quotient_of x")
  then have q: "0 < q" and x: "x = of_int p / of_int q"
    by (simp_all add: quotient_of_denom_pos quotient_of_div)
  from assms x q have p: "0 < p" by (simp add: zero_less_divide_iff)
  define d where "d = bitlen p - bitlen q"
  have two: "(2::rat) \<noteq> 0" by simp
  have lo: "2 powi (d - 1) \<le> x"
  proof -
    have "2 powi (d - 1) * of_int q \<le> 2 powi (d - 1) * (2 powi bitlen q :: rat)"
      using of_int_bitlen_bounds(2) [OF q] by (intro mult_left_mono) simp_all
    also have "\<dots> = 2 powi (bitlen p - 1)"
      unfolding d_def by (subst power_int_add [symmetric]) simp_all
    also have "\<dots> \<le> of_int p" by (rule of_int_bitlen_bounds(1) [OF p])
    finally show ?thesis using q by (simp add: x pos_le_divide_eq)
  qed
  have hi: "x < 2 powi (d + 1)"
  proof -
    have "(of_int p :: rat) < 2 powi bitlen p" by (rule of_int_bitlen_bounds(2) [OF p])
    also have "\<dots> = 2 powi (d + 1) * 2 powi (bitlen q - 1)"
      unfolding d_def by (subst power_int_add [symmetric]) simp_all
    also have "\<dots> \<le> 2 powi (d + 1) * of_int q"
      using of_int_bitlen_bounds(1) [OF q] by (intro mult_left_mono) simp_all
    finally show ?thesis using q by (simp add: x pos_divide_less_eq)
  qed
  have il: "ilog2 x = (if 2 powi d \<le> x then d else d - 1)"
    by (simp add: ilog2_def pq d_def Let_def)
  show "2 powi ilog2 x \<le> x" using lo by (simp add: il)
  show "x < 2 powi (ilog2 x + 1)" using hi by (simp add: il not_le)
qed

lemma ilog2_less: "0 < x \<Longrightarrow> x < 2 powi n \<Longrightarrow> ilog2 x < n"
proof (rule ccontr)
  assume x: "0 < x" "x < 2 powi n" and "\<not> ilog2 x < n"
  then have "n \<le> ilog2 x" by simp
  then have "(2::rat) powi n \<le> 2 powi ilog2 x" by (intro power_int_increasing) simp_all
  with ilog2_bounds(1) [OF x(1)] x(2) show False by simp
qed

lemma ilog2_ge: "0 < x \<Longrightarrow> 2 powi n \<le> x \<Longrightarrow> n \<le> ilog2 x"
proof (rule ccontr)
  assume x: "0 < x" "2 powi n \<le> x" and "\<not> n \<le> ilog2 x"
  then have "ilog2 x + 1 \<le> n" by simp
  then have "(2::rat) powi (ilog2 x + 1) \<le> 2 powi n" by (intro power_int_increasing) simp_all
  with ilog2_bounds(2) [OF x(1)] x(2) show False by simp
qed

lemma ilog2_mono: "0 < x \<Longrightarrow> x \<le> y \<Longrightarrow> ilog2 x \<le> ilog2 y"
  using ilog2_ge [of y "ilog2 x"] ilog2_bounds(1) [of x] by simp

lemma round_half_even_of_int [simp]: "round_half_even (of_int n) = n"
  by (simp add: round_half_even_def)

lemma round_half_even_floor: "\<lfloor>y\<rfloor> \<le> round_half_even y" "round_half_even y \<le> \<lfloor>y\<rfloor> + 1"
  by (simp_all add: round_half_even_def Let_def)

lemma round_half_even_mono:
  assumes "y \<le> z"
  shows "round_half_even y \<le> round_half_even z"
proof (cases "\<lfloor>y\<rfloor> = \<lfloor>z\<rfloor>")
  case True
  with assms show ?thesis by (auto simp: round_half_even_def Let_def)
next
  case False
  with assms have "\<lfloor>y\<rfloor> + 1 \<le> \<lfloor>z\<rfloor>" using floor_mono [OF assms] by simp
  with round_half_even_floor(2) [of y] round_half_even_floor(1) [of z] show ?thesis by simp
qed


lemma round_half_even_nonneg: "0 \<le> y \<Longrightarrow> 0 \<le> round_half_even y"
  using round_half_even_mono [of 0 y] round_half_even_of_int [of 0] by simp

lemma binary64_round_ulp:
  "x \<noteq> 0 \<Longrightarrow> binary64_round x = of_int (round_half_even (x / 2 powi ulp_exp x)) * 2 powi ulp_exp x"
  by (simp add: binary64_round_def)

lemma binary64_round_0 [simp]: "binary64_round 0 = 0"
  by (simp add: binary64_round_def)

lemma binary64_round_exact:
  assumes "\<bar>m\<bar> < 2 ^ 53" and "- 1074 \<le> e"
  shows "binary64_round (of_int m * 2 powi e) = of_int m * 2 powi e"
proof (cases "m = 0")
  case True
  then show ?thesis by simp
next
  case False
  define x :: rat where "x = of_int m * 2 powi e"
  have x0: "x \<noteq> 0" using False by (simp add: x_def)
  have ax: "\<bar>x\<bar> = of_int \<bar>m\<bar> * 2 powi e" by (simp add: x_def abs_mult)
  have "(of_int \<bar>m\<bar> :: rat) < of_int (2 ^ 53)" using assms(1) by (simp only: of_int_less_iff)
  then have "\<bar>x\<bar> < 2 ^ 53 * 2 powi e" unfolding ax by (intro mult_strict_right_mono) simp_all
  also have "\<dots> = 2 powi (53 + e)" by (subst power_int_add) simp_all
  finally have "ilog2 \<bar>x\<bar> < 53 + e" using x0 by (intro ilog2_less) simp_all
  with assms(2) have q: "ulp_exp x \<le> e" by (simp add: ulp_exp_def)
  define q where "q = ulp_exp x"
  define k where "k = nat (e - q)"
  have e: "e = int k + q" using q by (simp add: k_def q_def)
  have "(2::rat) powi e = 2 powi int k * 2 powi q"
    by (subst e, subst power_int_add) simp_all
  then have xq: "x = of_int (m * 2 ^ k) * 2 powi q" by (simp add: x_def)
  then have "x / 2 powi q = of_int (m * 2 ^ k)" by simp
  then have "round_half_even (x / 2 powi q) = m * 2 ^ k"
    by (simp only: round_half_even_of_int)
  moreover from binary64_round_ulp [OF x0]
  have "binary64_round x = of_int (round_half_even (x / 2 powi q)) * 2 powi q"
    by (simp only: q_def)
  ultimately have "binary64_round x = of_int (m * 2 ^ k) * 2 powi q"
    by (simp only:)
  with xq have "binary64_round x = x" by simp
  then show ?thesis by (simp only: x_def)
qed

lemma binary64_round_nonneg: "0 \<le> x \<Longrightarrow> 0 \<le> binary64_round x"
  by (cases "x = 0") (simp_all add: binary64_round_ulp round_half_even_nonneg)

lemma binary64_round_mono_nonneg:
  assumes "0 \<le> x" and "x \<le> y"
  shows "binary64_round x \<le> binary64_round y"
proof (cases "x = 0")
  case True
  with assms binary64_round_nonneg [of y] show ?thesis by simp
next
  case False
  with assms have x: "0 < x" and y: "0 < y" by simp_all
  have le: "ulp_exp x \<le> ulp_exp y"
    using ilog2_mono [of x y] x assms(2) y by (simp add: ulp_exp_def)
  show ?thesis
  proof (cases "ulp_exp x = ulp_exp y")
    case True
    have "x / 2 powi ulp_exp y \<le> y / 2 powi ulp_exp y"
      using assms(2) by (intro divide_right_mono) simp_all
    then have "round_half_even (x / 2 powi ulp_exp y) \<le> round_half_even (y / 2 powi ulp_exp y)"
      by (rule round_half_even_mono)
    then have "(of_int (round_half_even (x / 2 powi ulp_exp y)) :: rat) * 2 powi ulp_exp y
                 \<le> of_int (round_half_even (y / 2 powi ulp_exp y)) * 2 powi ulp_exp y"
      by (intro mult_right_mono) simp_all
    with x y True show ?thesis by (simp add: binary64_round_ulp)
  next
    case False
    with le have lt: "ulp_exp x < ulp_exp y" by simp
    define E where "E = ilog2 y"
    from lt have qy: "ulp_exp y = E - 52" and ex: "ilog2 x < E"
      using y x by (auto simp: ulp_exp_def E_def max_def split: if_splits)
    have qx: "ulp_exp x \<le> E" using lt qy by simp
    have xE: "x \<le> 2 powi E"
    proof -
      have "x < 2 powi (ilog2 x + 1)" by (rule ilog2_bounds(2) [OF x])
      also have "\<dots> \<le> 2 powi E" using ex by (intro power_int_increasing) simp_all
      finally show ?thesis by simp
    qed
    have yE: "2 powi E \<le> y" unfolding E_def by (rule ilog2_bounds(1) [OF y])
    have "binary64_round x \<le> 2 powi E"
    proof -
      define k where "k = nat (E - ulp_exp x)"
      have Ek: "E = int k + ulp_exp x" using qx by (simp add: k_def)
      have "x / 2 powi ulp_exp x \<le> 2 powi E / 2 powi ulp_exp x"
        using xE by (intro divide_right_mono) simp_all
      also have "\<dots> = of_int (2 ^ k)"
        by (subst Ek, subst power_int_add) simp_all
      finally have "round_half_even (x / 2 powi ulp_exp x) \<le> round_half_even (of_int (2 ^ k))"
        by (rule round_half_even_mono)
      then have "round_half_even (x / 2 powi ulp_exp x) \<le> 2 ^ k"
        by (simp only: round_half_even_of_int)
      then have "(of_int (round_half_even (x / 2 powi ulp_exp x)) :: rat) \<le> of_int (2 ^ k)"
        by (simp only: of_int_le_iff)
      then have "(of_int (round_half_even (x / 2 powi ulp_exp x)) :: rat) * 2 powi ulp_exp x
                   \<le> of_int (2 ^ k) * 2 powi ulp_exp x"
        by (intro mult_right_mono) simp_all
      also have "\<dots> = 2 powi E"
        by (subst Ek, subst power_int_add) simp_all
      finally show ?thesis using x by (simp add: binary64_round_ulp)
    qed
    moreover have "2 powi E \<le> binary64_round y"
    proof -
      have E52: "(2::rat) powi E = of_int (2 ^ 52) * 2 powi ulp_exp y"
        unfolding qy by (subst power_int_diff) simp_all
      then have "(of_int (2 ^ 52) :: rat) = 2 powi E / 2 powi ulp_exp y" by simp
      also have "\<dots> \<le> y / 2 powi ulp_exp y"
        using yE by (intro divide_right_mono) simp_all
      finally have "round_half_even (of_int (2 ^ 52)) \<le> round_half_even (y / 2 powi ulp_exp y)"
        by (rule round_half_even_mono)
      then have "2 ^ 52 \<le> round_half_even (y / 2 powi ulp_exp y)"
        by (simp only: round_half_even_of_int)
      then have "(of_int (2 ^ 52) :: rat) \<le> of_int (round_half_even (y / 2 powi ulp_exp y))"
        by (simp only: of_int_le_iff)
      then have "(of_int (2 ^ 52) :: rat) * 2 powi ulp_exp y
                   \<le> of_int (round_half_even (y / 2 powi ulp_exp y)) * 2 powi ulp_exp y"
        by (intro mult_right_mono) simp_all
      also have "\<dots> = binary64_round y" using y by (simp only: binary64_round_ulp)
      finally show ?thesis by (simp only: E52)
    qed
    ultimately show ?thesis by simp
  qed
qed


lemma is_binary64_round: "is_binary64 x \<Longrightarrow> binary64_round x = x"
proof (cases "x = 0")
  case True
  then show ?thesis by simp
next
  case False
  assume "is_binary64 x"
  then have int: "of_int \<lfloor>x / 2 powi ulp_exp x\<rfloor> = x / 2 powi ulp_exp x"
    unfolding is_binary64_def by (rule conjunct1)
  then have "round_half_even (x / 2 powi ulp_exp x) = \<lfloor>x / 2 powi ulp_exp x\<rfloor>"
    by (metis round_half_even_of_int)
  with binary64_round_ulp [OF False]
  have "binary64_round x = of_int \<lfloor>x / 2 powi ulp_exp x\<rfloor> * 2 powi ulp_exp x"
    by (simp only:)
  also have "\<dots> = x / 2 powi ulp_exp x * 2 powi ulp_exp x"
    by (simp only: int)
  finally show ?thesis by simp
qed

lemma is_binary64_finite: "is_binary64 x \<Longrightarrow> \<bar>x\<bar> < 2 ^ 1024"
  unfolding is_binary64_def by (rule conjunct2)

lemma is_binary64I:
  assumes "\<bar>m\<bar> < 2 ^ 53" and "- 1074 \<le> e" and "e \<le> 971"
  shows "is_binary64 (of_int m * 2 powi e)"
proof -
  define x :: rat where "x = of_int m * 2 powi e"
  have fixed: "binary64_round x = x" unfolding x_def by (rule binary64_round_exact [OF assms(1,2)])
  have int: "of_int \<lfloor>x / 2 powi ulp_exp x\<rfloor> = x / 2 powi ulp_exp x"
  proof (cases "x = 0")
    case True
    then show ?thesis by simp
  next
    case False
    from fixed binary64_round_ulp [OF False]
    have "of_int (round_half_even (x / 2 powi ulp_exp x)) * 2 powi ulp_exp x = x" by simp
    then have "x / 2 powi ulp_exp x = of_int (round_half_even (x / 2 powi ulp_exp x))"
      by (simp add: field_simps)
    then show ?thesis by (metis floor_of_int)
  qed
  have "(of_int \<bar>m\<bar> :: rat) < of_int (2 ^ 53)" using assms(1) by (simp only: of_int_less_iff)
  then have "\<bar>x\<bar> < 2 ^ 53 * 2 powi e"
    unfolding x_def abs_mult by (simp add: mult_strict_right_mono)
  also have "\<dots> \<le> 2 ^ 53 * 2 powi 971"
    using assms(3) by (intro mult_left_mono power_int_increasing) simp_all
  also have "\<dots> = 2 ^ 1024" by simp
  finally have "\<bar>x\<bar> < 2 ^ 1024" .
  with int show ?thesis by (simp add: is_binary64_def x_def)
qed

lemma is_binary64_of_int: "\<bar>n\<bar> < 2 ^ 53 \<Longrightarrow> is_binary64 (of_int n)"
  using is_binary64I [of n 0] by simp





section \<open>The total of an account\<close>








lemma Decimal_str_0 [simp]: "Decimal_str 0 = 0"
  by (simp add: Decimal_str_def)



















section \<open>Creation\<close>

lemma and_then_Inr [simp]: "and_then (Inr x) f = f x"
  by (simp add: and_then_def)

lemma and_then_Inl [simp]: "and_then (Inl e) f = Inl e"
  by (simp add: and_then_def)

lemma and_then_eq_Inr: "and_then m f = Inr y \<longleftrightarrow> (\<exists>x. m = Inr x \<and> f x = Inr y)"
  by (cases m) simp_all

lemma nullable_None [simp]: "nullable f None = Inr None"
  by (simp add: nullable_def)

lemma nullable_Some_Inr: "f x = Inr y \<Longrightarrow> nullable f (Some x) = Inr (Some y)"
  by (simp add: nullable_def)

lemma nullable_eq_Inr_Some:
  "nullable f v = Inr (Some y) \<longleftrightarrow> (\<exists>x. v = Some x \<and> f x = Inr y)"
  by (auto simp: nullable_def split: option.splits sum.splits)

lemma float8in_Inr: "float8in x = Inr v \<Longrightarrow> v = binary64_round x"
  by (auto simp: float8in_def Let_def split: if_splits)

lemma float8in_binary64:
  assumes "is_binary64 a"
  shows "float8in a = Inr a"
proof -
  from assms have r: "binary64_round a = a" and f: "\<not> 2 ^ 1024 \<le> \<bar>a\<bar>"
    using is_binary64_round is_binary64_finite [of a] by (simp_all only: not_le)
  show ?thesis
    unfolding float8in_def Let_def r using f by (simp only: simp_thms if_False)
qed

lemma is_binary64_numeral: "(numeral k :: int) < 2 ^ 53 \<Longrightarrow> is_binary64 (numeral k)"
  using is_binary64_of_int [of "numeral k"] by simp

lemma is_binary64_neg_numeral: "(numeral k :: int) < 2 ^ 53 \<Longrightarrow> is_binary64 (- numeral k)"
  using is_binary64_of_int [of "- numeral k"] by simp

lemma is_binary64_0: "is_binary64 0"
  using is_binary64_of_int [of 0] by simp

text \<open>What a successful INSERT has stored.\<close>

lemma insert_credit_Inr:
  assumes "insert_credit s now nextval obj = Inr (s', row)"
  shows "\<exists>a r. new_amount obj = Some a \<and> new_remaining_amount obj = Some r
           \<and> amount row = binary64_round a \<and> remaining_amount row = binary64_round r
           \<and> created_on row = (case new_created_on obj of None \<Rightarrow> Some now | Some t \<Rightarrow> Some t)
           \<and> s' = s\<lparr>credits := credits s @ [row]\<rparr>"
proof -
  from assms obtain key ident site amt remaining det invoice acct where
    amt: "nullable float8in (new_amount obj) = Inr amt"
    and remaining: "nullable float8in (new_remaining_amount obj) = Inr remaining"
    and rest: "(case (amt, remaining) of
         (Some a, Some r) \<Rightarrow>
           (let row = \<lparr> credit_id = key,
                        cfs_identifier = ident,
                        cfs_site = site,
                        is_credit_memo = (case new_is_credit_memo obj of None \<Rightarrow> Some False | Some b \<Rightarrow> Some b),
                        amount = a,
                        remaining_amount = r,
                        details = det,
                        created_on = (case new_created_on obj of None \<Rightarrow> Some now | Some t \<Rightarrow> Some t),
                        created_invoice_id = invoice,
                        account_id = acct \<rparr>
            in if key \<in> set (map credit_id (credits s)) then Inl IntegrityError
               else if \<not> (refers site (cfs_accounts s)
                           \<and> refers invoice (invoices s)
                           \<and> refers acct (payment_accounts s))
               then Inl IntegrityError
               else Inr (s\<lparr>credits := credits s @ [row]\<rparr>, row))
       | _ \<Rightarrow> Inl IntegrityError) = Inr (s', row)"
    unfolding insert_credit_def and_then_eq_Inr by blast
  from rest obtain a r where ar: "amt = Some a" "remaining = Some r"
    by (cases amt; cases remaining) simp_all
  from amt ar(1) obtain a0 where a0: "new_amount obj = Some a0" "float8in a0 = Inr a"
    by (auto simp: nullable_eq_Inr_Some)
  from remaining ar(2) obtain r0 where r0: "new_remaining_amount obj = Some r0" "float8in r0 = Inr r"
    by (auto simp: nullable_eq_Inr_Some)
  from rest ar have "amount row = a \<and> remaining_amount row = r
      \<and> created_on row = (case new_created_on obj of None \<Rightarrow> Some now | Some t \<Rightarrow> Some t)
      \<and> s' = s\<lparr>credits := credits s @ [row]\<rparr>"
    by (auto simp: Let_def split: if_splits)
  with a0 r0 float8in_Inr [OF a0(2)] float8in_Inr [OF r0(2)] show ?thesis by simp
qed

text \<open>With amounts that are doubles, only the rest of the instance decides the outcome.\<close>

lemma insert_credit_binary64:
  assumes "is_binary64 a" and "is_binary64 r"
  shows "insert_credit s now nextval (obj\<lparr>new_amount := Some a, new_remaining_amount := Some r\<rparr>)
     = map_sum id
         (\<lambda>(s', row). (s\<lparr>credits := credits s @ [row\<lparr>amount := a, remaining_amount := r\<rparr>]\<rparr>,
                        row\<lparr>amount := a, remaining_amount := r\<rparr>))
         (insert_credit s now nextval (obj\<lparr>new_amount := Some 0, new_remaining_amount := Some 0\<rparr>))"
proof -
  have f: "nullable float8in (Some a) = Inr (Some a)" "nullable float8in (Some r) = Inr (Some r)"
    "nullable float8in (Some 0) = Inr (Some 0)"
    using assms is_binary64_0 by (simp_all add: nullable_Some_Inr float8in_binary64)
  show ?thesis
    unfolding insert_credit_def
    by (simp add: f and_then_def Let_def split: sum.splits)
qed

lemma insert_sample:
  assumes "is_binary64 a" and "is_binary64 r"
  shows "insert_credit empty_store now 1 (sample_instance (Some a) (Some r) t)
     = Inr (empty_store\<lparr>credits :=
              [\<lparr> credit_id = 1, cfs_identifier = None, cfs_site = None, is_credit_memo = Some False,
                 amount = a, remaining_amount = r, details = None,
                 created_on = (case t of None \<Rightarrow> Some now | Some u \<Rightarrow> Some u),
                 created_invoice_id = None, account_id = None \<rparr>]\<rparr>,
            \<lparr> credit_id = 1, cfs_identifier = None, cfs_site = None, is_credit_memo = Some False,
              amount = a, remaining_amount = r, details = None,
              created_on = (case t of None \<Rightarrow> Some now | Some u \<Rightarrow> Some u),
              created_invoice_id = None, account_id = None \<rparr>)"
  using assms
  by (simp add: insert_credit_def sample_instance_def empty_store_def int4_def refers_def Let_def
      nullable_Some_Inr float8in_binary64)

lemma sample_instance_amounts:
  "sample_instance (Some a) (Some r) t
     = (sample_instance x y t)\<lparr>new_amount := Some a, new_remaining_amount := Some r\<rparr>"
  by (simp add: sample_instance_def)

text \<open>
  C6, as amended: the amounts of a new credit are not validated. For amounts that are
  doubles, whether a creation succeeds does not depend on the amount and the remaining
  amount it is given, so a negative amount is accepted wherever a non-negative one is;
  and when it succeeds, one row is added, which holds the amount and the remaining
  amount as they were given, so the remaining amount equals the amount only if the
  caller gives equal values.
\<close>

theorem insert_credit_amounts_unvalidated:
  assumes "is_binary64 a" and "is_binary64 r" and "is_binary64 a'" and "is_binary64 r'"
  shows "(isl (insert_credit s now nextval (obj\<lparr>new_amount := Some a, new_remaining_amount := Some r\<rparr>))
           \<longleftrightarrow> isl (insert_credit s now nextval (obj\<lparr>new_amount := Some a', new_remaining_amount := Some r'\<rparr>)))
       \<and> (\<forall>s' row. insert_credit s now nextval (obj\<lparr>new_amount := Some a, new_remaining_amount := Some r\<rparr>) = Inr (s', row)
            \<longrightarrow> amount row = a \<and> remaining_amount row = r \<and> s' = s\<lparr>credits := credits s @ [row]\<rparr>)"
proof (intro conjI allI impI)
  show "isl (insert_credit s now nextval (obj\<lparr>new_amount := Some a, new_remaining_amount := Some r\<rparr>))
           \<longleftrightarrow> isl (insert_credit s now nextval (obj\<lparr>new_amount := Some a', new_remaining_amount := Some r'\<rparr>))"
    by (simp only: insert_credit_binary64 [OF assms(1,2)] insert_credit_binary64 [OF assms(3,4)]
        isl_map_sum)
next
  fix s' row
  assume ok: "insert_credit s now nextval (obj\<lparr>new_amount := Some a, new_remaining_amount := Some r\<rparr>) = Inr (s', row)"
  from insert_credit_Inr [OF ok] assms(1,2)
  have "amount row = a" "remaining_amount row = r" "s' = s\<lparr>credits := credits s @ [row]\<rparr>"
    by (simp_all add: is_binary64_round)
  then show "amount row = a" "remaining_amount row = r" "s' = s\<lparr>credits := credits s @ [row]\<rparr>"
    by simp_all
qed

theorem insert_credit_amounts_unvalidated_witness:
  "is_binary64 (- 5) \<and> is_binary64 3 \<and> is_binary64 100
   \<and> \<not> isl (insert_credit empty_store 0 1 (sample_instance (Some 100) (Some 100) None))
   \<and> \<not> isl (insert_credit empty_store 0 1 (sample_instance (Some (- 5)) (Some 3) None))"
proof -
  have b: "is_binary64 (- 5)" "is_binary64 3" "is_binary64 100"
    by (simp_all add: is_binary64_numeral is_binary64_neg_numeral)
  have ok: "\<not> isl (insert_credit empty_store 0 1 (sample_instance (Some 100) (Some 100) None))"
    by (simp add: insert_sample b)
  from insert_credit_amounts_unvalidated [OF b(1) b(2) b(3) b(3),
      of empty_store 0 1 "sample_instance (Some 100) (Some 100) None"] ok
  have "\<not> isl (insert_credit empty_store 0 1 (sample_instance (Some (- 5)) (Some 3) None))"
    by (simp add: sample_instance_def)
  with b ok show ?thesis by simp
qed

text \<open>
  C6 as it is stated fails: a creation with the negative amount \<open>-5\<close> succeeds and the
  row is stored, and a creation with amount \<open>100\<close> and remaining amount \<open>40\<close> stores a row
  whose remaining amount is not its amount.
\<close>

theorem insert_credit_negative_amount_counterexample:
  "insert_credit empty_store 0 1 (sample_instance (Some (- 5)) (Some (- 5)) None)
     = Inr (empty_store\<lparr>credits :=
              [\<lparr> credit_id = 1, cfs_identifier = None, cfs_site = None, is_credit_memo = Some False,
                 amount = - 5, remaining_amount = - 5, details = None, created_on = Some 0,
                 created_invoice_id = None, account_id = None \<rparr>]\<rparr>,
            \<lparr> credit_id = 1, cfs_identifier = None, cfs_site = None, is_credit_memo = Some False,
              amount = - 5, remaining_amount = - 5, details = None, created_on = Some 0,
              created_invoice_id = None, account_id = None \<rparr>)
   \<and> insert_credit empty_store 0 1 (sample_instance (Some 100) (Some 40) None)
     = Inr (empty_store\<lparr>credits :=
              [\<lparr> credit_id = 1, cfs_identifier = None, cfs_site = None, is_credit_memo = Some False,
                 amount = 100, remaining_amount = 40, details = None, created_on = Some 0,
                 created_invoice_id = None, account_id = None \<rparr>]\<rparr>,
            \<lparr> credit_id = 1, cfs_identifier = None, cfs_site = None, is_credit_memo = Some False,
              amount = 100, remaining_amount = 40, details = None, created_on = Some 0,
              created_invoice_id = None, account_id = None \<rparr>)"
  by (simp add: insert_sample is_binary64_numeral is_binary64_neg_numeral)

text \<open>
  C8: a credit that is created without a \<open>created_on\<close> value is stored with the time
  the clock gives when the row is inserted; a credit that is created with a
  \<open>created_on\<close> value keeps that value.
\<close>

theorem insert_credit_created_on:
  assumes "insert_credit s now nextval obj = Inr (s', row)"
  shows "created_on row = Some (case new_created_on obj of None \<Rightarrow> now | Some t \<Rightarrow> t)
         \<and> row \<in> set (credits s')"
  using insert_credit_Inr [OF assms] by (auto split: option.splits)

theorem insert_credit_created_on_witness:
  "(\<exists>s row. insert_credit empty_store 1700000000 1 (sample_instance (Some 100) (Some 100) None) = Inr (s, row)
       \<and> created_on row = Some 1700000000)
   \<and> (\<exists>s row. insert_credit empty_store 1700000000 1 (sample_instance (Some 100) (Some 100) (Some 42)) = Inr (s, row)
       \<and> created_on row = Some 42)"
proof -
  have b: "is_binary64 100" by (simp add: is_binary64_numeral)
  obtain s1 r1 where a: "insert_credit empty_store 1700000000 1 (sample_instance (Some 100) (Some 100) None) = Inr (s1, r1)"
    using insert_sample [OF b b] by blast
  obtain s2 r2 where c: "insert_credit empty_store 1700000000 1 (sample_instance (Some 100) (Some 100) (Some 42)) = Inr (s2, r2)"
    using insert_sample [OF b b] by blast
  from insert_credit_created_on [OF a] insert_credit_created_on [OF c] a c
  show ?thesis by (simp add: sample_instance_def)
qed

section \<open>The invariant of the data model\<close>

lemma insert_credit_invariant:
  assumes "insert_credit s now nextval obj = Inr (s', row)"
    and "store_invariant s"
    and "within_invariant (Create obj now nextval)"
  shows "store_invariant s'"
proof -
  from insert_credit_Inr [OF assms(1)] obtain a r where
    *: "new_amount obj = Some a" "new_remaining_amount obj = Some r"
       "amount row = binary64_round a" "remaining_amount row = binary64_round r"
       "s' = s\<lparr>credits := credits s @ [row]\<rparr>"
    by auto
  from * assms(3) have "0 \<le> r" "r \<le> a" by simp_all
  then have "0 \<le> binary64_round r" "binary64_round r \<le> binary64_round a"
    by (simp_all add: binary64_round_nonneg binary64_round_mono_nonneg)
  with * have "credit_invariant row" by (simp add: credit_invariant_def)
  with assms(2) *(5) show ?thesis by (simp add: store_invariant_def)
qed

text \<open>
  C1, as amended: the module does not enforce \<open>0 \<le> remaining_amount \<le> amount\<close>. The
  invariant holds of every row after an operation of the module whenever it held
  before and the operation, if it creates a credit, is given amounts with
  \<open>0 \<le> remaining_amount \<le> amount\<close>; the two lookups change no row.
\<close>

theorem exec_preserves_invariant:
  assumes "store_invariant s" and "within_invariant op"
  shows "store_invariant (exec s op)"
proof (cases op)
  case (Create obj now nextval)
  show ?thesis
  proof (cases "insert_credit s now nextval obj")
    case (Inl e)
    with Create assms(1) show ?thesis by simp
  next
    case (Inr p)
    obtain s' row where p: "p = (s', row)" by (cases p)
    with Inr assms Create have "store_invariant s'"
      using insert_credit_invariant [of s now nextval obj s' row] by simp
    with Inr p Create show ?thesis by simp
  qed
next
  case (Find_by_cfs_identifier cfs_id credit_memo)
  with assms(1) show ?thesis by simp
next
  case (Find_remaining_by_account_id acct)
  with assms(1) show ?thesis by simp
qed

theorem exec_preserves_invariant_witness:
  "store_invariant empty_store
   \<and> within_invariant (Create (sample_instance (Some 100) (Some 60) None) 0 1)
   \<and> store_invariant (exec empty_store (Create (sample_instance (Some 100) (Some 60) None) 0 1))
   \<and> credits (exec empty_store (Create (sample_instance (Some 100) (Some 60) None) 0 1)) \<noteq> []"
proof -
  have a: "store_invariant empty_store" by (simp add: store_invariant_def empty_store_def)
  have b: "within_invariant (Create (sample_instance (Some 100) (Some 60) None) 0 1)"
    by (simp add: sample_instance_def)
  have c: "credits (exec empty_store (Create (sample_instance (Some 100) (Some 60) None) 0 1)) \<noteq> []"
    by (simp add: insert_sample is_binary64_numeral)
  from exec_preserves_invariant [OF a b] a b c show ?thesis by simp
qed

text \<open>
  C1 as it is stated fails: from the empty table, whose rows all satisfy the
  invariant, creating a credit with amount \<open>10\<close> and remaining amount \<open>20\<close> succeeds and
  leaves a row whose remaining amount exceeds its amount.
\<close>

theorem exec_breaks_invariant_counterexample:
  "store_invariant empty_store
   \<and> \<not> store_invariant (exec empty_store (Create (sample_instance (Some 10) (Some 20) None) 0 1))"
proof -
  have a: "store_invariant empty_store" by (simp add: store_invariant_def empty_store_def)
  have b: "\<not> store_invariant (exec empty_store (Create (sample_instance (Some 10) (Some 20) None) 0 1))"
    by (simp add: store_invariant_def credit_invariant_def insert_sample is_binary64_numeral)
  from a b show ?thesis by simp
qed

section \<open>Applying a credit\<close>

text \<open>
  C5: applying more than \<open>remaining_amount\<close> fails with \<open>InsufficientCreditError\<close> and
  leaves every field of the record as it was; applying at most \<open>remaining_amount\<close>
  succeeds and decrements \<open>remaining_amount\<close> by exactly the amount applied, leaving
  the other fields as they were.
\<close>

theorem Credit_apply_contract:
  "(amount_to_apply > remaining_amount c \<longrightarrow>
      Credit_apply c amount_to_apply invoice_id = (c, Inl InsufficientCreditError))
   \<and> (amount_to_apply \<le> remaining_amount c \<longrightarrow>
      Credit_apply c amount_to_apply invoice_id
        = (c\<lparr>remaining_amount := remaining_amount c - amount_to_apply\<rparr>, Inr ()))"
  by (simp add: Credit_apply_def)

theorem Credit_apply_contract_witness:
  "Credit_apply (sample_credit 1 ''A'' False 100 100 5) 40 7
     = (sample_credit 1 ''A'' False 100 60 5, Inr ())
   \<and> Credit_apply (sample_credit 1 ''A'' False 100 60 5) 70 8
     = (sample_credit 1 ''A'' False 100 60 5, Inl InsufficientCreditError)"
  using Credit_apply_contract [of "sample_credit 1 ''A'' False 100 100 5" 40 7]
    Credit_apply_contract [of "sample_credit 1 ''A'' False 100 60 5" 70 8]
  by (simp add: sample_credit_def)

section \<open>The mapped and the serialized fields\<close>

lemma mapped_properties_Credit_columns: "mapped_properties Credit_columns = Credit_columns"
  by (simp add: mapped_properties_def Credit_columns_def include_properties_def)

lemma mapped_names_subset:
  "set (map col_name (mapped_properties table_columns)) \<subseteq> set include_properties"
  by (auto simp: mapped_properties_def)

lemma include_properties_declared:
  "list_all (\<lambda>n. n \<in> set (map col_name Credit_columns)) include_properties"
  by (simp add: include_properties_def Credit_columns_def)

text \<open>
  The mapper's side of C7 holds: whatever further columns the table has, the names of
  the mapped columns are the ten names of the allow-list, each once.
\<close>

lemma mapped_names_extra:
  "set (map col_name (mapped_properties (Credit_columns @ extra))) = set include_properties"
proof
  show "set (map col_name (mapped_properties (Credit_columns @ extra))) \<subseteq> set include_properties"
    by (rule mapped_names_subset)
  have "set include_properties \<subseteq> set (map col_name Credit_columns)"
    using include_properties_declared by (auto simp: list_all_iff)
  also have "\<dots> = set (map col_name (mapped_properties Credit_columns))"
    by (simp only: mapped_properties_Credit_columns)
  also have "\<dots> \<subseteq> set (map col_name (mapped_properties (Credit_columns @ extra)))"
    by (auto simp: mapped_properties_def)
  finally show "set include_properties \<subseteq> set (map col_name (mapped_properties (Credit_columns @ extra)))" .
qed

lemma include_properties_ten: "length include_properties = 10 \<and> distinct include_properties"
  by (simp add: include_properties_def)

text \<open>
  C7, the serialized side: the fields of \<open>CreditSchema\<close> are the seven mapped columns
  without a foreign key. \<open>cfs_site\<close>, \<open>created_invoice_id\<close> and \<open>account_id\<close> are in the
  allow-list (and in the table) and are not serialized, where the docstring of the
  schema's \<open>Meta\<close> says that it returns all the fields of the class.
\<close>

theorem CreditSchema_fields_no_foreign_keys:
  "CreditSchema_fields Credit_columns =
     [''id'', ''cfs_identifier'', ''is_credit_memo'', ''amount'', ''remaining_amount'',
      ''details'', ''created_on'']
   \<and> ''account_id'' \<in> set include_properties
   \<and> ''account_id'' \<notin> set (CreditSchema_fields Credit_columns)"
  by (simp add: CreditSchema_fields_def auto_schema_fields_def mapped_properties_def
      Credit_columns_def include_properties_def)

end
